theory Spec2Isabelle
  imports Main
begin

section \<open>Genomic intervals\<close>

text \<open>
  \<^verbatim>\<open>genome.Interval\<close> is a dataclass of the client library. The script builds it from a
  chromosome label, a start and an end, and reads back \<^verbatim>\<open>start\<close>, \<^verbatim>\<open>end\<close> and
  \<^verbatim>\<open>width\<close>; the derived attribute is \<^verbatim>\<open>width = end - start\<close>. Coordinates are
  Python integers, hence \<^typ>\<open>int\<close>. The field \<^verbatim>\<open>end\<close> is written \<open>end'\<close>.
  The class itself belongs to the client library, which refuses an end below the start
  when an interval is built. The record has no such check: it stands for an interval
  that has been built, so it is only used below with \<open>start \<le> end\<close>. The attributes the
  script does not pass keep their defaults and are left out.
\<close>

record Interval =
  chromosome :: string
  start :: int
  end' :: int

definition width :: "Interval \<Rightarrow> int" where
  "width iv = end' iv - start iv"

subsection \<open>Module constants of \<^verbatim>\<open>acquire_17p11_2_locus.py\<close>\<close>

definition LOCUS_17P11_2_START :: int where
  "LOCUS_17P11_2_START = 16700000"

definition LOCUS_17P11_2_END :: int where
  "LOCUS_17P11_2_END = 20500000"

text \<open>
  Modelled from the spec: \<^verbatim>\<open>dna_client.SEQUENCE_LENGTH_500KB\<close> is a constant of the client
  library; the comment beside its use and the concrete scenario of the specification both
  give 524,288.
\<close>

definition SEQUENCE_LENGTH_500KB :: int where
  "SEQUENCE_LENGTH_500KB = 524288"

definition CHUNK_SIZE :: int where
  "CHUNK_SIZE = SEQUENCE_LENGTH_500KB"

section \<open>The chunking loop of \<^verbatim>\<open>main\<close>\<close>

text \<open>
  The parent interval of \<^verbatim>\<open>main\<close>, with its two coordinates as parameters; the chromosome
  is the literal of the source. It is the parent of the program for
  \<open>locus_start \<le> locus_end\<close>; with the end below the start the library raises while the
  parent is built, the loop is never reached, and nothing below is stated for that case.
\<close>

definition make_full_locus :: "int \<Rightarrow> int \<Rightarrow> Interval" where
  "make_full_locus locus_start locus_end =
     \<lparr>chromosome = ''chr17'', start = locus_start, end' = locus_end\<rparr>"

text \<open>
  The variables the loop works on: the two it only reads (\<^verbatim>\<open>full_locus\<close> and the chunk
  size) and the two it assigns (\<^verbatim>\<open>current_pos\<close> and \<^verbatim>\<open>chunks\<close>).
\<close>

record loop_state =
  full_locus :: Interval
  chunk_size :: int
  current_pos :: int
  chunks :: "Interval list"

text \<open>Where the interval of one iteration ends: a full window, cut at the parent's end.\<close>

definition chunk_end :: "loop_state \<Rightarrow> int" where
  "chunk_end s = min (current_pos s + chunk_size s) (end' (full_locus s))"

text \<open>The interval built in one iteration.\<close>

definition candidate :: "loop_state \<Rightarrow> Interval" where
  "candidate s = \<lparr>chromosome = ''chr17'', start = current_pos s, end' = chunk_end s\<rparr>"

text \<open>The condition under which the interval is appended.\<close>

definition accepted :: "loop_state \<Rightarrow> Interval \<Rightarrow> bool" where
  "accepted s chunk \<longleftrightarrow>
     width chunk = chunk_size s \<or> width chunk = end' (full_locus s) - current_pos s"

text \<open>
  One iteration: build the interval, append it if accepted, then move \<^verbatim>\<open>current_pos\<close>
  to its end. The test reads \<^verbatim>\<open>current_pos\<close> before the assignment.
\<close>

definition loop_body :: "loop_state \<Rightarrow> loop_state" where
  "loop_body s =
     (let chunk = candidate s
      in s\<lparr>chunks := (if accepted s chunk then chunks s @ [chunk] else chunks s),
            current_pos := chunk_end s\<rparr>)"

text \<open>
  The \<^verbatim>\<open>while\<close> loop. Nothing in the source bounds the number of iterations, so the
  result is an option: \<open>None\<close> stands for a loop that never leaves.
\<close>

partial_function (option) while_loop :: "loop_state \<Rightarrow> loop_state option" where
  "while_loop s =
     (if current_pos s < end' (full_locus s) then while_loop (loop_body s) else Some s)"

declare while_loop.simps [code]

definition initial_state :: "int \<Rightarrow> Interval \<Rightarrow> loop_state" where
  "initial_state w parent =
     \<lparr>full_locus = parent, chunk_size = w, current_pos = start parent, chunks = []\<rparr>"

definition break_locus :: "int \<Rightarrow> Interval \<Rightarrow> Interval list option" where
  "break_locus w parent = map_option chunks (while_loop (initial_state w parent))"

text \<open>The same loop with the acceptance test taken out: every interval is appended.\<close>

definition loop_body_unfiltered :: "loop_state \<Rightarrow> loop_state" where
  "loop_body_unfiltered s =
     (let chunk = candidate s
      in s\<lparr>chunks := chunks s @ [chunk], current_pos := chunk_end s\<rparr>)"

partial_function (option) while_loop_unfiltered :: "loop_state \<Rightarrow> loop_state option" where
  "while_loop_unfiltered s =
     (if current_pos s < end' (full_locus s)
      then while_loop_unfiltered (loop_body_unfiltered s) else Some s)"

declare while_loop_unfiltered.simps [code]

definition break_locus_unfiltered :: "int \<Rightarrow> Interval \<Rightarrow> Interval list option" where
  "break_locus_unfiltered w parent =
     map_option chunks (while_loop_unfiltered (initial_state w parent))"

text \<open>
  A total description of what the loop appends from position \<open>pos\<close> on, used to reason
  about it: windows of width \<open>w\<close> cut at \<open>e\<close>.
\<close>

function tiling :: "int \<Rightarrow> int \<Rightarrow> int \<Rightarrow> Interval list" where
  "tiling w e pos =
     (if pos < e \<and> 0 < w
      then \<lparr>chromosome = ''chr17'', start = pos, end' = min (pos + w) e\<rparr>
             # tiling w e (min (pos + w) e)
      else [])"
  by pat_completeness auto
termination
  by (relation "measure (\<lambda>(w, e, pos). nat (e - pos))") auto

declare tiling.simps [simp del]

text \<open>
  Modelled from the spec: the window sizes the predictor accepts. They are an enumeration
  of the client library; the concrete scenario of the specification lists them. The loop
  of \<^verbatim>\<open>main\<close> never reads them.
\<close>

definition supported_widths :: "int set" where
  "supported_widths = {16384, 131072, 524288, 1048576}"

section \<open>\<^verbatim>\<open>colab_utils.get_api_key\<close>\<close>

text \<open>
  The process environment is a dictionary from names to strings. A lookup in the Colab
  secrets either returns a string or raises; the three exceptions the function catches are
  named, any other is \<open>OtherColabError\<close>.
\<close>

type_synonym environ = "string \<rightharpoonup> string"

datatype colab_error =
  NotebookAccessError | SecretNotFoundError | TimeoutException | OtherColabError

text \<open>
  The two messages of the function, each with the secret name it is formatted with, and
  the exceptions that can leave it.
\<close>

datatype message = CannotAccessColabSecret string | CannotFindApiKey string

datatype exception = ValueError message | Uncaught colab_error

text \<open>
  The part of the function after the environment lookup. The second component of the
  result lists the names looked up in the Colab secrets.
\<close>

definition from_colab ::
  "bool \<Rightarrow> (string \<Rightarrow> colab_error + string) \<Rightarrow> string \<Rightarrow> (exception + string) \<times> string list"
where
  "from_colab IN_COLAB userdata_get secret =
     (if IN_COLAB then
        (case userdata_get secret of
           Inr api_key \<Rightarrow> (Inr api_key, [secret])
         | Inl OtherColabError \<Rightarrow> (Inl (Uncaught OtherColabError), [secret])
         | Inl _ \<Rightarrow> (Inl (ValueError (CannotAccessColabSecret secret)), [secret]))
      else (Inl (ValueError (CannotFindApiKey secret)), []))"

text \<open>
  \<^verbatim>\<open>if api_key := os.environ.get(secret)\<close> is taken when the variable is set to a
  non-empty string: \<^verbatim>\<open>None\<close> and the empty string are both false.
\<close>

definition get_api_key ::
  "environ \<Rightarrow> bool \<Rightarrow> (string \<Rightarrow> colab_error + string) \<Rightarrow> string \<Rightarrow>
   (exception + string) \<times> string list"
where
  "get_api_key environ IN_COLAB userdata_get secret =
     (case environ secret of
        Some api_key \<Rightarrow>
          if api_key \<noteq> [] then (Inr api_key, [])
          else from_colab IN_COLAB userdata_get secret
      | None \<Rightarrow> from_colab IN_COLAB userdata_get secret)"

section \<open>What the loop computes\<close>

lemma candidate_accepted: "accepted s (candidate s)"
  by (simp add: accepted_def candidate_def chunk_end_def width_def min_def)

lemma tiling_Nil: "\<not> pos < e \<Longrightarrow> tiling w e pos = []"
  by (subst tiling.simps) simp

lemma tiling_Cons:
  "pos < e \<Longrightarrow> 0 < w \<Longrightarrow>
   tiling w e pos =
     \<lparr>chromosome = ''chr17'', start = pos, end' = min (pos + w) e\<rparr> # tiling w e (min (pos + w) e)"
  by (subst tiling.simps) simp

lemma while_loop_result:
  "0 < chunk_size s \<Longrightarrow>
   while_loop s =
     Some (s\<lparr>current_pos := max (current_pos s) (end' (full_locus s)),
             chunks := chunks s @ tiling (chunk_size s) (end' (full_locus s)) (current_pos s)\<rparr>)"
proof (induction "chunk_size s" "end' (full_locus s)" "current_pos s" arbitrary: s
       rule: tiling.induct)
  case 1
  show ?case
  proof (cases "current_pos s < end' (full_locus s)")
    case True
    let ?t = "loop_body s"
    have body: "?t = s\<lparr>current_pos := min (current_pos s + chunk_size s) (end' (full_locus s)),
                       chunks := chunks s @ [candidate s]\<rparr>"
      using candidate_accepted [of s] by (simp add: loop_body_def Let_def candidate_def chunk_end_def)
    have "while_loop s = while_loop ?t"
      using True by (subst while_loop.simps) simp
    also have "\<dots> = Some (?t\<lparr>current_pos := max (current_pos ?t) (end' (full_locus ?t)),
         chunks := chunks ?t @ tiling (chunk_size ?t) (end' (full_locus ?t)) (current_pos ?t)\<rparr>)"
      by (rule "1.hyps") (use True "1.prems" in \<open>simp_all add: body\<close>)
    also have "\<dots> = Some (s\<lparr>current_pos := max (current_pos s) (end' (full_locus s)),
         chunks := chunks s @ tiling (chunk_size s) (end' (full_locus s)) (current_pos s)\<rparr>)"
      using True "1.prems"
      by (simp add: body tiling_Cons [of "current_pos s"] candidate_def chunk_end_def Let_def max_def min_def)
    finally show ?thesis .
  next
    case False
    then show ?thesis
      by (subst while_loop.simps) (simp add: tiling_Nil max_def)
  qed
qed

lemma while_loop_unfiltered_result:
  "0 < chunk_size s \<Longrightarrow>
   while_loop_unfiltered s =
     Some (s\<lparr>current_pos := max (current_pos s) (end' (full_locus s)),
             chunks := chunks s @ tiling (chunk_size s) (end' (full_locus s)) (current_pos s)\<rparr>)"
proof (induction "chunk_size s" "end' (full_locus s)" "current_pos s" arbitrary: s
       rule: tiling.induct)
  case 1
  show ?case
  proof (cases "current_pos s < end' (full_locus s)")
    case True
    let ?t = "loop_body_unfiltered s"
    have body: "?t = s\<lparr>current_pos := min (current_pos s + chunk_size s) (end' (full_locus s)),
                       chunks := chunks s @ [candidate s]\<rparr>"
      by (simp add: loop_body_unfiltered_def Let_def candidate_def chunk_end_def)
    have "while_loop_unfiltered s = while_loop_unfiltered ?t"
      using True by (subst while_loop_unfiltered.simps) simp
    also have "\<dots> = Some (?t\<lparr>current_pos := max (current_pos ?t) (end' (full_locus ?t)),
         chunks := chunks ?t @ tiling (chunk_size ?t) (end' (full_locus ?t)) (current_pos ?t)\<rparr>)"
      by (rule "1.hyps") (use True "1.prems" in \<open>simp_all add: body\<close>)
    also have "\<dots> = Some (s\<lparr>current_pos := max (current_pos s) (end' (full_locus s)),
         chunks := chunks s @ tiling (chunk_size s) (end' (full_locus s)) (current_pos s)\<rparr>)"
      using True "1.prems"
      by (simp add: body tiling_Cons [of "current_pos s"] candidate_def chunk_end_def Let_def max_def min_def)
    finally show ?thesis .
  next
    case False
    then show ?thesis
      by (subst while_loop_unfiltered.simps) (simp add: tiling_Nil max_def)
  qed
qed


lemma break_locus_tiling:
  "0 < w \<Longrightarrow> break_locus w p = Some (tiling w (end' p) (start p))"
  by (simp add: break_locus_def initial_state_def while_loop_result)

lemma break_locus_unfiltered_tiling:
  "0 < w \<Longrightarrow> break_locus_unfiltered w p = Some (tiling w (end' p) (start p))"
  by (simp add: break_locus_unfiltered_def initial_state_def while_loop_unfiltered_result)

lemma tiling_step_full:
  "pos + w < e \<Longrightarrow> 0 < w \<Longrightarrow>
   tiling w e pos = \<lparr>chromosome = ''chr17'', start = pos, end' = pos + w\<rparr> # tiling w e (pos + w)"
  by (simp add: tiling_Cons [of pos e w])

lemma tiling_step_last:
  "pos < e \<Longrightarrow> e \<le> pos + w \<Longrightarrow>
   tiling w e pos = [\<lparr>chromosome = ''chr17'', start = pos, end' = e\<rparr>]"
  by (simp add: tiling_Cons [of pos e w] tiling_Nil)

lemma tiling_not_Nil: "pos < e \<Longrightarrow> 0 < w \<Longrightarrow> tiling w e pos \<noteq> []"
  by (simp add: tiling_Cons)

lemma tiling_live: "tiling w e pos \<noteq> [] \<Longrightarrow> pos < e \<and> 0 < w"
  by (subst (asm) tiling.simps) (simp split: if_splits)

lemma tiling_hd: "pos < e \<Longrightarrow> 0 < w \<Longrightarrow> start (hd (tiling w e pos)) = pos"
  by (simp add: tiling_Cons)

lemma tiling_last: "pos < e \<Longrightarrow> 0 < w \<Longrightarrow> end' (last (tiling w e pos)) = e"
proof (induction w e pos rule: tiling.induct)
  case (1 w e pos)
  show ?case
  proof (cases "pos + w < e")
    case True
    with 1 show ?thesis
      by (simp add: tiling_step_full tiling_not_Nil)
  next
    case False
    with "1.prems" show ?thesis
      by (simp add: tiling_step_last)
  qed
qed

lemma tiling_members:
  "c \<in> set (tiling w e pos) \<Longrightarrow>
   start c < end' c \<and> chromosome c = ''chr17'' \<and> pos \<le> start c \<and> end' c \<le> e"
proof (induction w e pos rule: tiling.induct)
  case (1 w e pos)
  show ?case
  proof (cases "pos < e \<and> 0 < w")
    case True
    then have "tiling w e pos =
        \<lparr>chromosome = ''chr17'', start = pos, end' = min (pos + w) e\<rparr> # tiling w e (min (pos + w) e)"
      by (simp add: tiling_Cons)
    with "1.prems" consider
      (head) "c = \<lparr>chromosome = ''chr17'', start = pos, end' = min (pos + w) e\<rparr>"
      | (tail) "c \<in> set (tiling w e (min (pos + w) e))"
      by auto
    then show ?thesis
    proof cases
      case head
      with True show ?thesis by simp
    next
      case tail
      from "1.IH" [OF True tail] True show ?thesis by (simp add: min_def split: if_splits)
    qed
  next
    case False
    then have "tiling w e pos = []" by (subst tiling.simps) simp
    with "1.prems" show ?thesis by simp
  qed
qed

lemma tiling_chain:
  "Suc i < length (tiling w e pos) \<Longrightarrow>
   start (tiling w e pos ! Suc i) = end' (tiling w e pos ! i)"
proof (induction w e pos arbitrary: i rule: tiling.induct)
  case (1 w e pos)
  have live: "pos < e \<and> 0 < w"
    using "1.prems" by (intro tiling_live) auto
  let ?next = "min (pos + w) e"
  have unfold: "tiling w e pos =
      \<lparr>chromosome = ''chr17'', start = pos, end' = ?next\<rparr> # tiling w e ?next"
    using live by (simp add: tiling_Cons)
  show ?case
  proof (cases i)
    case 0
    from "1.prems" unfold have "tiling w e ?next \<noteq> []" by auto
    then have "?next < e" by (blast dest: tiling_live)
    then have "start (hd (tiling w e ?next)) = ?next"
      using live by (simp add: tiling_hd)
    with \<open>tiling w e ?next \<noteq> []\<close> 0 unfold show ?thesis
      by (simp add: hd_conv_nth)
  next
    case (Suc k)
    from "1.prems" unfold Suc have "Suc k < length (tiling w e ?next)" by simp
    from "1.IH" [OF live this] unfold Suc show ?thesis by simp
  qed
qed

lemma tiling_full_width:
  "Suc i < length (tiling w e pos) \<Longrightarrow> width (tiling w e pos ! i) = w"
proof (induction w e pos arbitrary: i rule: tiling.induct)
  case (1 w e pos)
  have live: "pos < e \<and> 0 < w"
    using "1.prems" by (intro tiling_live) auto
  let ?next = "min (pos + w) e"
  have unfold: "tiling w e pos =
      \<lparr>chromosome = ''chr17'', start = pos, end' = ?next\<rparr> # tiling w e ?next"
    using live by (simp add: tiling_Cons)
  show ?case
  proof (cases i)
    case 0
    from "1.prems" unfold have "tiling w e ?next \<noteq> []" by auto
    then have "?next < e" by (blast dest: tiling_live)
    with 0 unfold show ?thesis by (simp add: width_def)
  next
    case (Suc k)
    from "1.prems" unfold Suc have "Suc k < length (tiling w e ?next)" by simp
    from "1.IH" [OF live this] unfold Suc show ?thesis by simp
  qed
qed

lemma tiling_last_width:
  "pos < e \<Longrightarrow> 0 < w \<Longrightarrow>
   width (last (tiling w e pos)) \<le> w \<and>
   (width (last (tiling w e pos)) = w \<longleftrightarrow> w dvd e - pos)"
proof (induction w e pos rule: tiling.induct)
  case (1 w e pos)
  show ?case
  proof (cases "pos + w < e")
    case True
    have "w dvd e - (pos + w) \<longleftrightarrow> w dvd e - pos"
    proof -
      have "e - pos = (e - (pos + w)) + w" by simp
      then show ?thesis by (metis dvd_add_left_iff dvd_refl)
    qed
    with 1 True show ?thesis
      by (simp add: tiling_step_full tiling_not_Nil)
  next
    case False
    have "w dvd e - pos \<longleftrightarrow> e - pos = w"
    proof
      assume "w dvd e - pos"
      then have "w \<le> e - pos" using "1.prems" by (intro zdvd_imp_le) simp_all
      with False show "e - pos = w" by simp
    qed simp
    with False "1.prems" show ?thesis
      by (auto simp add: tiling_step_last width_def)
  qed
qed

lemma tiling_cover:
  "0 < w \<Longrightarrow> (\<Union>c \<in> set (tiling w e pos). {start c ..< end' c}) = {pos ..< e}"
proof (induction w e pos rule: tiling.induct)
  case (1 w e pos)
  show ?case
  proof (cases "pos < e")
    case True
    let ?next = "min (pos + w) e"
    have "(\<Union>c \<in> set (tiling w e pos). {start c ..< end' c}) =
            {pos ..< ?next} \<union> (\<Union>c \<in> set (tiling w e ?next). {start c ..< end' c})"
      using True "1.prems" by (simp add: tiling_Cons [of pos e w])
    also have "\<dots> = {pos ..< ?next} \<union> {?next ..< e}"
      using "1.IH" True "1.prems" by simp
    also have "\<dots> = {pos ..< e}"
      using True "1.prems" by auto
    finally show ?thesis .
  next
    case False
    then show ?thesis by (simp add: tiling_Nil)
  qed
qed

lemma tiling_ordered:
  "i < j \<Longrightarrow> j < length (tiling w e pos) \<Longrightarrow>
   end' (tiling w e pos ! i) \<le> start (tiling w e pos ! j)"
proof (induction w e pos arbitrary: i j rule: tiling.induct)
  case (1 w e pos)
  have live: "pos < e \<and> 0 < w"
    using "1.prems" by (intro tiling_live) auto
  let ?next = "min (pos + w) e"
  have unfold: "tiling w e pos =
      \<lparr>chromosome = ''chr17'', start = pos, end' = ?next\<rparr> # tiling w e ?next"
    using live by (simp add: tiling_Cons)
  from "1.prems" obtain k where j: "j = Suc k" by (cases j) auto
  with "1.prems" unfold have k: "k < length (tiling w e ?next)" by simp
  show ?case
  proof (cases i)
    case 0
    from k have "tiling w e ?next ! k \<in> set (tiling w e ?next)" by simp
    then have "?next \<le> start (tiling w e ?next ! k)" using tiling_members by blast
    with 0 j unfold show ?thesis by simp
  next
    case (Suc i')
    with "1.prems" j have "i' < k" by simp
    from "1.IH" [OF live this k] unfold Suc j show ?thesis by simp
  qed
qed

lemma while_loop_exit:
  "\<not> current_pos s < end' (full_locus s) \<Longrightarrow> while_loop s = Some s"
  by (subst while_loop.simps) simp

lemma loop_body_frame:
  "full_locus (loop_body s) = full_locus s \<and> chunk_size (loop_body s) = chunk_size s"
  by (simp add: loop_body_def Let_def)

lemma while_loop_frame:
  assumes "while_loop s = Some t"
  shows "full_locus t = full_locus s \<and> chunk_size t = chunk_size s"
proof (rule while_loop.raw_induct
    [where P = "\<lambda>s t :: loop_state. full_locus t = full_locus s \<and> chunk_size t = chunk_size s", OF _ assms])
  fix loop :: "loop_state \<Rightarrow> loop_state option" and s t :: loop_state
  assume IH: "\<And>x y. loop x = Some y \<Longrightarrow>
                full_locus y = full_locus x \<and> chunk_size y = chunk_size x"
  assume step: "(if current_pos s < end' (full_locus s) then loop (loop_body s) else Some s) = Some t"
  show "full_locus t = full_locus s \<and> chunk_size t = chunk_size s"
  proof (cases "current_pos s < end' (full_locus s)")
    case True
    with step have "loop (loop_body s) = Some t" by simp
    from IH [OF this] show ?thesis by (simp add: loop_body_frame)
  next
    case False
    with step show ?thesis by simp
  qed
qed

text \<open>
  With a chunk size of 0 and a position below the end, the position never moves and the
  loop never leaves: the option result is not decoration.
\<close>

lemma while_loop_zero_diverges:
  assumes "chunk_size s = 0" and "current_pos s < end' (full_locus s)"
  shows "while_loop s = None"
proof (rule ccontr)
  assume "while_loop s \<noteq> None"
  then obtain t where run: "while_loop s = Some t" by auto
  have "\<not> (chunk_size s = 0 \<and> current_pos s < end' (full_locus s))"
  proof (rule while_loop.raw_induct
      [where P = "\<lambda>s t :: loop_state.
                    \<not> (chunk_size s = 0 \<and> current_pos s < end' (full_locus s))", OF _ run])
    fix loop :: "loop_state \<Rightarrow> loop_state option" and s t :: loop_state
    assume IH: "\<And>x y. loop x = Some y \<Longrightarrow>
                  \<not> (chunk_size x = 0 \<and> current_pos x < end' (full_locus x))"
    assume step:
      "(if current_pos s < end' (full_locus s) then loop (loop_body s) else Some s) = Some t"
    show "\<not> (chunk_size s = 0 \<and> current_pos s < end' (full_locus s))"
    proof
      assume stuck: "chunk_size s = 0 \<and> current_pos s < end' (full_locus s)"
      with step have "loop (loop_body s) = Some t" by simp
      from IH [OF this] stuck show False
        by (simp add: loop_body_def Let_def chunk_end_def)
    qed
  qed
  with assms show False by simp
qed

lemma loop_body_advances:
  assumes "current_pos s < end' (full_locus s)" and "0 < chunk_size s"
  shows "current_pos s < current_pos (loop_body s) \<and>
         current_pos (loop_body s) \<le> end' (full_locus s)"
  using assms by (simp add: loop_body_def Let_def candidate_def chunk_end_def)

lemma break_locus_degenerate: "end' p = start p \<Longrightarrow> break_locus w p = Some []"
  by (simp add: break_locus_def initial_state_def while_loop_exit)

lemma tiling_17p11_2:
  "tiling 524288 20500000 16700000 =
     [\<lparr>chromosome = ''chr17'', start = 16700000, end' = 17224288\<rparr>,
      \<lparr>chromosome = ''chr17'', start = 17224288, end' = 17748576\<rparr>,
      \<lparr>chromosome = ''chr17'', start = 17748576, end' = 18272864\<rparr>,
      \<lparr>chromosome = ''chr17'', start = 18272864, end' = 18797152\<rparr>,
      \<lparr>chromosome = ''chr17'', start = 18797152, end' = 19321440\<rparr>,
      \<lparr>chromosome = ''chr17'', start = 19321440, end' = 19845728\<rparr>,
      \<lparr>chromosome = ''chr17'', start = 19845728, end' = 20370016\<rparr>,
      \<lparr>chromosome = ''chr17'', start = 20370016, end' = 20500000\<rparr>]"
  by (simp add: tiling_step_full tiling_step_last)

lemma break_locus_17p11_2:
  "break_locus CHUNK_SIZE (make_full_locus LOCUS_17P11_2_START LOCUS_17P11_2_END) =
     Some (tiling 524288 20500000 16700000)"
  by (simp add: break_locus_tiling CHUNK_SIZE_def SEQUENCE_LENGTH_500KB_def
      make_full_locus_def LOCUS_17P11_2_START_def LOCUS_17P11_2_END_def)

section \<open>The claims\<close>

text \<open>
  C1. For a parent with \<open>0 \<le> start < end\<close> and a positive chunk size the loop returns,
  and the chunks it returns tile the parent in order: the first starts at the parent's
  start, each later one starts where the one before it ends, and the last ends at the
  parent's end. There is no overlap (a chunk ends at or before the start of every later
  chunk) and no gap (the positions covered are exactly those of the parent).
\<close>
theorem break_locus_tiles_parent:
  assumes "0 \<le> start p" and "start p < end' p" and "0 < w"
  shows "\<exists>cs. break_locus w p = Some cs \<and> cs \<noteq> [] \<and>
           start (hd cs) = start p \<and>
           (\<forall>i. Suc i < length cs \<longrightarrow> start (cs ! Suc i) = end' (cs ! i)) \<and>
           end' (last cs) = end' p \<and>
           (\<forall>i j. i < j \<and> j < length cs \<longrightarrow> end' (cs ! i) \<le> start (cs ! j)) \<and>
           (\<Union>c \<in> set cs. {start c ..< end' c}) = {start p ..< end' p}"
proof -
  let ?cs = "tiling w (end' p) (start p)"
  have "break_locus w p = Some ?cs"
    using assms(3) by (rule break_locus_tiling)
  moreover have "?cs \<noteq> []"
    using assms by (simp add: tiling_not_Nil)
  moreover have "start (hd ?cs) = start p"
    using assms by (simp add: tiling_hd)
  moreover have "\<forall>i. Suc i < length ?cs \<longrightarrow> start (?cs ! Suc i) = end' (?cs ! i)"
    by (simp add: tiling_chain)
  moreover have "end' (last ?cs) = end' p"
    using assms by (simp add: tiling_last)
  moreover have "\<forall>i j. i < j \<and> j < length ?cs \<longrightarrow> end' (?cs ! i) \<le> start (?cs ! j)"
    by (simp add: tiling_ordered)
  moreover have "(\<Union>c \<in> set ?cs. {start c ..< end' c}) = {start p ..< end' p}"
    using assms(3) by (rule tiling_cover)
  ultimately show ?thesis by blast
qed

theorem break_locus_tiles_parent_witness:
  "0 \<le> start (make_full_locus 0 25) \<and> start (make_full_locus 0 25) < end' (make_full_locus 0 25) \<and>
   (0::int) < 10 \<and>
   (\<exists>cs. break_locus 10 (make_full_locus 0 25) = Some cs \<and> cs \<noteq> [] \<and>
      start (hd cs) = start (make_full_locus 0 25) \<and>
      (\<forall>i. Suc i < length cs \<longrightarrow> start (cs ! Suc i) = end' (cs ! i)) \<and>
      end' (last cs) = end' (make_full_locus 0 25) \<and>
      (\<forall>i j. i < j \<and> j < length cs \<longrightarrow> end' (cs ! i) \<le> start (cs ! j)) \<and>
      (\<Union>c \<in> set cs. {start c ..< end' c}) =
        {start (make_full_locus 0 25) ..< end' (make_full_locus 0 25)})"
proof -
  have h1: "0 \<le> start (make_full_locus 0 25)" by (simp add: make_full_locus_def)
  have h2: "start (make_full_locus 0 25) < end' (make_full_locus 0 25)"
    by (simp add: make_full_locus_def)
  have h3: "(0::int) < 10" by simp
  from break_locus_tiles_parent [OF h1 h2 h3] h1 h2 h3 show ?thesis by blast
qed

text \<open>
  C2, as the loop has it. The loop raises nothing and reads no set of supported widths.
  Given a parent of width 0 (\<open>end = start\<close>) it returns normally with no chunks, for
  every chunk size; given a parent with \<open>start < end\<close> and any positive chunk size, in a
  supported set or not, it returns normally with at least one chunk. A parent with the
  end below the start never reaches the loop and is left out.
\<close>
theorem break_locus_raises_nothing:
  "(end' p = start p \<longrightarrow> break_locus w p = Some []) \<and>
   (start p < end' p \<and> 0 < w \<longrightarrow> (\<exists>cs. break_locus w p = Some cs \<and> cs \<noteq> []))"
  by (simp add: break_locus_degenerate break_locus_tiling tiling_not_Nil)

theorem break_locus_raises_nothing_witness:
  "end' (make_full_locus 100 100) = start (make_full_locus 100 100) \<and>
   break_locus 524288 (make_full_locus 100 100) = Some [] \<and>
   start (make_full_locus 0 2500) < end' (make_full_locus 0 2500) \<and> (0::int) < 1000 \<and>
   (\<exists>cs. break_locus 1000 (make_full_locus 0 2500) = Some cs \<and> cs \<noteq> [])"
proof -
  have h1: "end' (make_full_locus 100 100) = start (make_full_locus 100 100)"
    by (simp add: make_full_locus_def)
  have h2: "start (make_full_locus 0 2500) < end' (make_full_locus 0 2500) \<and> (0::int) < 1000"
    by (simp add: make_full_locus_def)
  from break_locus_raises_nothing [of "make_full_locus 100 100" 524288]
       break_locus_raises_nothing [of "make_full_locus 0 2500" 1000] h1 h2
  show ?thesis by blast
qed

text \<open>
  C2 as stated asks for an error in two cases. A parent of width 0 with a supported chunk
  size gives a normal return with no chunks, and the chunk size 1000, which is not a
  supported width, gives a normal return with three chunks.
\<close>
theorem break_locus_invalid_input_counterexample:
  "width (make_full_locus 100 100) \<le> 0 \<and>
   break_locus 524288 (make_full_locus 100 100) = Some [] \<and>
   1000 \<notin> supported_widths \<and>
   break_locus 1000 (make_full_locus 0 2500) =
     Some [\<lparr>chromosome = ''chr17'', start = 0, end' = 1000\<rparr>,
           \<lparr>chromosome = ''chr17'', start = 1000, end' = 2000\<rparr>,
           \<lparr>chromosome = ''chr17'', start = 2000, end' = 2500\<rparr>]"
  by (simp add: break_locus_degenerate break_locus_tiling make_full_locus_def width_def
      supported_widths_def tiling_step_full tiling_step_last)

text \<open>
  C3. For a parent with \<open>start < end\<close> and a positive chunk size, every returned chunk
  but the last has exactly the chunk size as its width; the last has at most that width,
  and exactly that width precisely when the chunk size divides the parent's width.
\<close>
theorem break_locus_widths:
  assumes "start p < end' p" and "0 < w"
  shows "\<exists>cs. break_locus w p = Some cs \<and> cs \<noteq> [] \<and>
           (\<forall>i. Suc i < length cs \<longrightarrow> width (cs ! i) = w) \<and>
           width (last cs) \<le> w \<and>
           (width (last cs) = w \<longleftrightarrow> w dvd width p)"
proof -
  let ?cs = "tiling w (end' p) (start p)"
  have "break_locus w p = Some ?cs"
    using assms(2) by (rule break_locus_tiling)
  moreover have "?cs \<noteq> []"
    using assms by (simp add: tiling_not_Nil)
  moreover have "\<forall>i. Suc i < length ?cs \<longrightarrow> width (?cs ! i) = w"
    by (simp add: tiling_full_width)
  moreover have "width (last ?cs) \<le> w \<and> (width (last ?cs) = w \<longleftrightarrow> w dvd width p)"
    using tiling_last_width [OF assms] by (simp add: width_def [of p])
  ultimately show ?thesis by blast
qed

theorem break_locus_widths_witness:
  "start (make_full_locus 0 25) < end' (make_full_locus 0 25) \<and> (0::int) < 10 \<and>
   (\<exists>cs. break_locus 10 (make_full_locus 0 25) = Some cs \<and> cs \<noteq> [] \<and>
      (\<forall>i. Suc i < length cs \<longrightarrow> width (cs ! i) = 10) \<and>
      width (last cs) \<le> 10 \<and>
      (width (last cs) = 10 \<longleftrightarrow> 10 dvd width (make_full_locus 0 25)))"
proof -
  have h1: "start (make_full_locus 0 25) < end' (make_full_locus 0 25)"
    by (simp add: make_full_locus_def)
  have h2: "(0::int) < 10" by simp
  from break_locus_widths [OF h1 h2] h1 h2 show ?thesis by blast
qed

text \<open>
  C4, with the last chunk as the loop computes it. For the parent chr17:16,700,000-20,500,000
  and the chunk size 524,288 the loop returns seven chunks of width 524,288 starting at
  16,700,000, 17,224,288, 17,748,576, 18,272,864, 18,797,152, 19,321,440 and 19,845,728,
  then the final chunk [20,370,016, 20,500,000) of width 129,984.
\<close>
theorem main_chunks_17p11_2:
  "break_locus CHUNK_SIZE (make_full_locus LOCUS_17P11_2_START LOCUS_17P11_2_END) =
     Some
      [\<lparr>chromosome = ''chr17'', start = 16700000, end' = 17224288\<rparr>,
       \<lparr>chromosome = ''chr17'', start = 17224288, end' = 17748576\<rparr>,
       \<lparr>chromosome = ''chr17'', start = 17748576, end' = 18272864\<rparr>,
       \<lparr>chromosome = ''chr17'', start = 18272864, end' = 18797152\<rparr>,
       \<lparr>chromosome = ''chr17'', start = 18797152, end' = 19321440\<rparr>,
       \<lparr>chromosome = ''chr17'', start = 19321440, end' = 19845728\<rparr>,
       \<lparr>chromosome = ''chr17'', start = 19845728, end' = 20370016\<rparr>,
       \<lparr>chromosome = ''chr17'', start = 20370016, end' = 20500000\<rparr>] \<and>
   map_option (map width)
     (break_locus CHUNK_SIZE (make_full_locus LOCUS_17P11_2_START LOCUS_17P11_2_END)) =
     Some [524288, 524288, 524288, 524288, 524288, 524288, 524288, 129984]"
  by (simp add: break_locus_17p11_2 tiling_17p11_2 width_def)

text \<open>
  C4 as stated puts the final chunk at [20,369,984, 20,500,000) with width 130,016. The
  seventh chunk ends at 19,845,728 + 524,288 = 20,370,016, so the list of the claim is not
  the one returned, and neither the start nor the width of the last chunk is as claimed.
\<close>
theorem main_chunks_17p11_2_counterexample:
  "break_locus CHUNK_SIZE (make_full_locus LOCUS_17P11_2_START LOCUS_17P11_2_END) \<noteq>
     Some
      [\<lparr>chromosome = ''chr17'', start = 16700000, end' = 17224288\<rparr>,
       \<lparr>chromosome = ''chr17'', start = 17224288, end' = 17748576\<rparr>,
       \<lparr>chromosome = ''chr17'', start = 17748576, end' = 18272864\<rparr>,
       \<lparr>chromosome = ''chr17'', start = 18272864, end' = 18797152\<rparr>,
       \<lparr>chromosome = ''chr17'', start = 18797152, end' = 19321440\<rparr>,
       \<lparr>chromosome = ''chr17'', start = 19321440, end' = 19845728\<rparr>,
       \<lparr>chromosome = ''chr17'', start = 19845728, end' = 20370016\<rparr>,
       \<lparr>chromosome = ''chr17'', start = 20369984, end' = 20500000\<rparr>] \<and>
   map_option (\<lambda>cs. (start (last cs), width (last cs)))
     (break_locus CHUNK_SIZE (make_full_locus LOCUS_17P11_2_START LOCUS_17P11_2_END)) \<noteq>
     Some (20369984, 130016)"
  by (simp add: break_locus_17p11_2 tiling_17p11_2 width_def)

text \<open>
  C5. A parent whose width is positive and at most the chunk size (equal or smaller) gives
  exactly one chunk, with the parent's start and end.
\<close>
theorem break_locus_single_chunk:
  assumes "0 < width p" and "width p \<le> w"
  shows "\<exists>c. break_locus w p = Some [c] \<and> start c = start p \<and> end' c = end' p"
proof -
  from assms have pos: "start p < end' p" and fit: "end' p \<le> start p + w" and w: "0 < w"
    by (simp_all add: width_def)
  have "break_locus w p = Some (tiling w (end' p) (start p))"
    using w by (rule break_locus_tiling)
  also have "tiling w (end' p) (start p) =
               [\<lparr>chromosome = ''chr17'', start = start p, end' = end' p\<rparr>]"
    using pos fit by (rule tiling_step_last)
  finally show ?thesis by simp
qed

theorem break_locus_single_chunk_witness:
  "0 < width (make_full_locus 100 130) \<and> width (make_full_locus 100 130) \<le> 30 \<and>
   (\<exists>c. break_locus 30 (make_full_locus 100 130) = Some [c] \<and>
      start c = start (make_full_locus 100 130) \<and> end' c = end' (make_full_locus 100 130))"
proof -
  have h1: "0 < width (make_full_locus 100 130)" by (simp add: make_full_locus_def width_def)
  have h2: "width (make_full_locus 100 130) \<le> 30" by (simp add: make_full_locus_def width_def)
  from break_locus_single_chunk [OF h1 h2] h1 h2 show ?thesis by blast
qed

text \<open>
  C6. For a parent with \<open>start < end\<close> and a positive chunk size, the interval built in
  any iteration has the chunk size as its width or reaches exactly to the parent's end, so
  the acceptance test never rejects: the loop and the loop without the test return the
  same chunks.
\<close>
theorem acceptance_test_never_rejects:
  assumes "start p < end' p" and "0 < w"
  shows "(\<forall>s. full_locus s = p \<and> chunk_size s = w \<longrightarrow>
            width (candidate s) = w \<or> width (candidate s) = end' p - current_pos s) \<and>
         (\<exists>cs. break_locus w p = Some cs \<and> break_locus_unfiltered w p = Some cs)"
proof
  show "\<forall>s. full_locus s = p \<and> chunk_size s = w \<longrightarrow>
            width (candidate s) = w \<or> width (candidate s) = end' p - current_pos s"
    using candidate_accepted by (auto simp add: accepted_def)
  show "\<exists>cs. break_locus w p = Some cs \<and> break_locus_unfiltered w p = Some cs"
    using assms(2) by (simp add: break_locus_tiling break_locus_unfiltered_tiling)
qed

theorem acceptance_test_never_rejects_witness:
  "start (make_full_locus 0 25) < end' (make_full_locus 0 25) \<and> (0::int) < 10 \<and>
   full_locus (initial_state 10 (make_full_locus 0 25)) = make_full_locus 0 25 \<and>
   chunk_size (initial_state 10 (make_full_locus 0 25)) = 10 \<and>
   (width (candidate (initial_state 10 (make_full_locus 0 25))) = 10 \<or>
    width (candidate (initial_state 10 (make_full_locus 0 25))) =
      end' (make_full_locus 0 25) - current_pos (initial_state 10 (make_full_locus 0 25))) \<and>
   (\<exists>cs. break_locus 10 (make_full_locus 0 25) = Some cs \<and>
          break_locus_unfiltered 10 (make_full_locus 0 25) = Some cs)"
proof -
  have h1: "start (make_full_locus 0 25) < end' (make_full_locus 0 25)"
    by (simp add: make_full_locus_def)
  have h2: "(0::int) < 10" by simp
  have h3: "full_locus (initial_state 10 (make_full_locus 0 25)) = make_full_locus 0 25 \<and>
            chunk_size (initial_state 10 (make_full_locus 0 25)) = 10"
    by (simp add: initial_state_def)
  from acceptance_test_never_rejects [OF h1 h2] h1 h2 h3 show ?thesis by blast
qed



text \<open>
  C8. The chunk sequence is a function of the parent and the chunk size alone: equal
  inputs give equal sequences. The loop leaves its inputs as they were: in the state it
  ends in, the parent interval and the chunk size are the ones it was started with.
\<close>
theorem break_locus_deterministic_and_pure:
  "(w = w' \<and> p = p' \<longrightarrow> break_locus w p = break_locus w' p') \<and>
   (while_loop (initial_state w p) = Some t \<longrightarrow> full_locus t = p \<and> chunk_size t = w)"
proof
  show "w = w' \<and> p = p' \<longrightarrow> break_locus w p = break_locus w' p'" by simp
  show "while_loop (initial_state w p) = Some t \<longrightarrow> full_locus t = p \<and> chunk_size t = w"
    using while_loop_frame [of "initial_state w p" t] by (simp add: initial_state_def)
qed

theorem break_locus_deterministic_and_pure_witness:
  "while_loop (initial_state 10 (make_full_locus 0 25)) =
     Some \<lparr>full_locus = make_full_locus 0 25, chunk_size = 10, current_pos = 25,
           chunks = [\<lparr>chromosome = ''chr17'', start = 0, end' = 10\<rparr>,
                     \<lparr>chromosome = ''chr17'', start = 10, end' = 20\<rparr>,
                     \<lparr>chromosome = ''chr17'', start = 20, end' = 25\<rparr>]\<rparr> \<and>
   break_locus 10 (make_full_locus 0 25) = break_locus 10 (make_full_locus 0 25) \<and>
   full_locus \<lparr>full_locus = make_full_locus 0 25, chunk_size = 10, current_pos = 25,
           chunks = [\<lparr>chromosome = ''chr17'', start = 0, end' = 10\<rparr>,
                     \<lparr>chromosome = ''chr17'', start = 10, end' = 20\<rparr>,
                     \<lparr>chromosome = ''chr17'', start = 20, end' = 25\<rparr>]\<rparr> = make_full_locus 0 25"
proof -
  let ?t = "\<lparr>full_locus = make_full_locus 0 25, chunk_size = 10, current_pos = 25,
           chunks = [\<lparr>chromosome = ''chr17'', start = 0, end' = 10\<rparr>,
                     \<lparr>chromosome = ''chr17'', start = 10, end' = 20\<rparr>,
                     \<lparr>chromosome = ''chr17'', start = 20, end' = 25\<rparr>]\<rparr>"
  have run: "while_loop (initial_state 10 (make_full_locus 0 25)) = Some ?t"
    by (simp add: while_loop_result initial_state_def make_full_locus_def
        tiling_step_full tiling_step_last)
  from break_locus_deterministic_and_pure
         [of 10 10 "make_full_locus 0 25" "make_full_locus 0 25" ?t] run
  show ?thesis by simp
qed

text \<open>
  C9. For a parent with \<open>start < end\<close> and a positive chunk size the loop returns. In
  every iteration the position strictly increases and stays at or below the parent's end,
  so the distance left to the end strictly decreases.
\<close>
theorem chunking_loop_terminates:
  assumes "start p < end' p" and "0 < w"
  shows "(\<exists>cs. break_locus w p = Some cs) \<and>
         (\<forall>s. full_locus s = p \<and> chunk_size s = w \<and> current_pos s < end' p \<longrightarrow>
              current_pos s < current_pos (loop_body s) \<and>
              current_pos (loop_body s) \<le> end' p \<and>
              nat (end' p - current_pos (loop_body s)) < nat (end' p - current_pos s))"
proof
  show "\<exists>cs. break_locus w p = Some cs"
    using assms(2) by (simp add: break_locus_tiling)
  show "\<forall>s. full_locus s = p \<and> chunk_size s = w \<and> current_pos s < end' p \<longrightarrow>
              current_pos s < current_pos (loop_body s) \<and>
              current_pos (loop_body s) \<le> end' p \<and>
              nat (end' p - current_pos (loop_body s)) < nat (end' p - current_pos s)"
  proof (intro allI impI)
    fix s :: loop_state
    assume s: "full_locus s = p \<and> chunk_size s = w \<and> current_pos s < end' p"
    with assms(2) have "current_pos s < current_pos (loop_body s) \<and>
        current_pos (loop_body s) \<le> end' (full_locus s)"
      by (intro loop_body_advances) simp_all
    with s show "current_pos s < current_pos (loop_body s) \<and>
              current_pos (loop_body s) \<le> end' p \<and>
              nat (end' p - current_pos (loop_body s)) < nat (end' p - current_pos s)"
      by auto
  qed
qed

theorem chunking_loop_terminates_witness:
  "start (make_full_locus 0 25) < end' (make_full_locus 0 25) \<and> (0::int) < 10 \<and>
   (\<exists>cs. break_locus 10 (make_full_locus 0 25) = Some cs) \<and>
   full_locus (initial_state 10 (make_full_locus 0 25)) = make_full_locus 0 25 \<and>
   chunk_size (initial_state 10 (make_full_locus 0 25)) = 10 \<and>
   current_pos (initial_state 10 (make_full_locus 0 25)) < end' (make_full_locus 0 25) \<and>
   current_pos (initial_state 10 (make_full_locus 0 25))
     < current_pos (loop_body (initial_state 10 (make_full_locus 0 25))) \<and>
   current_pos (loop_body (initial_state 10 (make_full_locus 0 25)))
     \<le> end' (make_full_locus 0 25) \<and>
   nat (end' (make_full_locus 0 25)
          - current_pos (loop_body (initial_state 10 (make_full_locus 0 25))))
     < nat (end' (make_full_locus 0 25)
          - current_pos (initial_state 10 (make_full_locus 0 25)))"
proof -
  have h1: "start (make_full_locus 0 25) < end' (make_full_locus 0 25)"
    by (simp add: make_full_locus_def)
  have h2: "(0::int) < 10" by simp
  have h3: "full_locus (initial_state 10 (make_full_locus 0 25)) = make_full_locus 0 25 \<and>
            chunk_size (initial_state 10 (make_full_locus 0 25)) = 10 \<and>
            current_pos (initial_state 10 (make_full_locus 0 25)) < end' (make_full_locus 0 25)"
    by (simp add: initial_state_def make_full_locus_def)
  from chunking_loop_terminates [OF h1 h2] h1 h2 h3 show ?thesis by blast
qed

text \<open>
  C10. When the environment variable named by the secret is set to a non-empty string,
  \<^verbatim>\<open>get_api_key\<close> returns that string and looks nothing up in the Colab secrets,
  whether or not it runs in Colab. When the variable is unset or empty and the process is
  not in Colab, it raises \<^verbatim>\<open>ValueError\<close>.
\<close>
theorem get_api_key_environment_first:
  "(environ secret = Some api_key \<and> api_key \<noteq> [] \<longrightarrow>
      get_api_key environ IN_COLAB userdata_get secret = (Inr api_key, [])) \<and>
   (environ secret = None \<or> environ secret = Some [] \<longrightarrow>
      get_api_key environ False userdata_get secret =
        (Inl (ValueError (CannotFindApiKey secret)), []))"
  by (auto simp add: get_api_key_def from_colab_def)

theorem get_api_key_environment_first_witness:
  "[''ALPHA_GENOME_API_KEY'' \<mapsto> ''k''] ''ALPHA_GENOME_API_KEY'' = Some ''k'' \<and> ''k'' \<noteq> [] \<and>
   get_api_key [''ALPHA_GENOME_API_KEY'' \<mapsto> ''k''] True (\<lambda>_. Inr ''other'')
     ''ALPHA_GENOME_API_KEY'' = (Inr ''k'', []) \<and>
   (Map.empty :: environ) ''ALPHA_GENOME_API_KEY'' = None \<and>
   get_api_key Map.empty False (\<lambda>_. Inr ''other'') ''ALPHA_GENOME_API_KEY'' =
     (Inl (ValueError (CannotFindApiKey ''ALPHA_GENOME_API_KEY'')), [])"
  using get_api_key_environment_first
          [of "[''ALPHA_GENOME_API_KEY'' \<mapsto> ''k'']" "''ALPHA_GENOME_API_KEY''" "''k''" True
              "\<lambda>_. Inr ''other''"]
        get_api_key_environment_first
          [of Map.empty "''ALPHA_GENOME_API_KEY''" "''k''" True "\<lambda>_. Inr ''other''"]
  by simp

end
